theory Spec2Isabelle
  imports Complex_Main
begin

section \<open>Data model of \<^verbatim>\<open>js/mesh-viewer.js\<close>\<close>

text \<open>
  The page script keeps four module-level variables (\<^verbatim>\<open>allViewers\<close>, \<^verbatim>\<open>isSyncing\<close>,
  \<^verbatim>\<open>isRotating\<close>, \<^verbatim>\<open>isPaused\<close>) and a number of objects created with \<^verbatim>\<open>new\<close>
  that are shared by reference: cameras, orbit controls, renderers, scenes and DOM
  elements. The objects live in an explicit store: each kind of object has a heap, a
  total function from addresses to object values, and a reference is the address.
  Addresses come from one counter, so every \<^verbatim>\<open>new\<close> yields an address that no
  earlier object has.

  JavaScript numbers are written as \<^typ>\<open>real\<close>. Only number literals of the script are
  embedded; every arithmetic operation on them happens inside three.js, which is not
  part of the script and is taken as a parameter (record \<open>three\<close> below).
\<close>

type_synonym vec3 = "real \<times> real \<times> real"
type_synonym quat = "real \<times> real \<times> real \<times> real"

record spherical =
  radius :: real
  phi :: real
  theta :: real

record perspective_camera =
  position :: vec3
  quaternion :: quat

text \<open>
  An \<^verbatim>\<open>OrbitControls\<close> object: \<open>object\<close> is the address of the camera it drives,
  \<open>userIsInteracting\<close> is the property the script adds (absent, hence falsy, until the
  first mouse event), \<open>internal\<close> stands for the private state of the library object.
\<close>

record 'c orbit_controls =
  object :: nat
  target :: vec3
  enablePan :: bool
  enableZoom :: bool
  autoRotate :: bool
  autoRotateSpeed :: real
  userIsInteracting :: bool
  internal :: 'c

text \<open>
  The values the script reads out of its two object literals. A property read
  \<^verbatim>\<open>obj[key]\<close> yields the own property when there is one, otherwise what the
  prototype chain has: both literals inherit from \<^verbatim>\<open>Object.prototype\<close>, and
  \<open>Inherited k\<close> is the function (or, for \<^verbatim>\<open>__proto__\<close>, the prototype object)
  found there under the name \<open>k\<close>. \<open>Labels a b\<close> is a two-element array of strings.
\<close>

datatype js_value = Undefined | Number real | Labels string string | Inherited string

text \<open>
  What \<^verbatim>\<open>GLTFLoader\<close> hands to the success callback: \<^verbatim>\<open>gltf.scene\<close> with its scale
  (the script sets all three components to one value) and the objects that
  \<^verbatim>\<open>traverse\<close> visits.
\<close>

record material =
  roughness :: real
  metalness :: real
  envMapIntensity :: real
  needsUpdate :: bool

record node =
  isMesh :: bool
  castShadow :: bool
  receiveShadow :: bool
  node_material :: "material option"

record gltf_scene =
  model_scale :: js_value
  nodes :: "node list"

text \<open>
  A \<^verbatim>\<open>THREE.Scene\<close> as far as the script changes it after the fixed background and
  lights: the optional ground plane and the models added by the load callback.
\<close>

record scene_obj =
  has_ground :: bool
  models :: "gltf_scene list"

text \<open>A DOM element: a viewer's container \<^verbatim>\<open>div\<close> or a loading indicator.\<close>

record element =
  className :: string
  innerText :: string
  display :: string
  children :: "nat list"

text \<open>
  The closure of the two callbacks passed to \<^verbatim>\<open>loader.load\<close>: the path requested
  and the variables \<^verbatim>\<open>scene\<close>, \<^verbatim>\<open>scale\<close> and \<^verbatim>\<open>loading\<close> of that \<^verbatim>\<open>initViewer\<close> call.
\<close>

record load_request =
  load_path :: "string option"
  load_scene :: nat
  load_scale :: js_value
  load_loading :: nat

text \<open>Calls that leave the page script: WebGL resources and the console.\<close>

datatype effect =
    Create_renderer nat
  | Dispose nat
  | Render nat nat nat
  | Console_error string

text \<open>
  The host page as the script reads it: the \<^verbatim>\<open>data-condition\<close>, \<^verbatim>\<open>data-gen1\<close> and
  \<^verbatim>\<open>data-gen2\<close> attributes of the first element carrying \<^verbatim>\<open>data-obj="name"\<close>
  (\<open>None\<close> when \<^verbatim>\<open>querySelector\<close> finds no such element; a missing attribute reads as
  \<^verbatim>\<open>undefined\<close>, here \<open>None\<close>), and the initial captions of the two toggle buttons.
  The elements \<^verbatim>\<open>.viewers-container\<close>, \<^verbatim>\<open>#btn-rotate\<close> and \<^verbatim>\<open>#btn-pause\<close> are taken
  to exist.
\<close>

record tab_dataset =
  condition :: "string option"
  gen1 :: "string option"
  gen2 :: "string option"

record page =
  tab_button :: "string \<Rightarrow> tab_dataset option"
  rotate_caption :: string
  pause_caption :: string

datatype js_error = TypeError

datatype 's outcome = Returned 's | Threw js_error 's

text \<open>The object literal \<^verbatim>\<open>{ scene, camera, renderer, controls, container }\<close>.\<close>

record viewer =
  scene :: nat
  camera :: nat
  renderer :: nat
  controls :: nat
  container :: nat

text \<open>
  The part of three.js the script calls. \<open>update\<close> is the computation inside
  \<^verbatim>\<open>OrbitControls.update()\<close>: from the controls object and its camera it yields the
  camera's new position and orientation, the new target, the new private state, and
  whether the library dispatches a \<^verbatim>\<open>change\<close> event. The library writes no other
  property of the controls object. \<open>lookAt\<close> yields the orientation
  \<^verbatim>\<open>Object3D.lookAt\<close> gives the camera; \<open>orbit_new\<close> is the \<^verbatim>\<open>OrbitControls\<close>
  constructor (initial target, initial private state, and the camera as the
  constructor's first \<^verbatim>\<open>update()\<close> leaves it).
\<close>

record 'c three =
  subVectors :: "vec3 \<Rightarrow> vec3 \<Rightarrow> vec3"
  setFromVector3 :: "vec3 \<Rightarrow> spherical"
  setFromSphericalCoords :: "real \<Rightarrow> real \<Rightarrow> real \<Rightarrow> vec3"
  add :: "vec3 \<Rightarrow> vec3 \<Rightarrow> vec3"
  lookAt :: "perspective_camera \<Rightarrow> vec3 \<Rightarrow> quat"
  orbit_new :: "perspective_camera \<Rightarrow> vec3 \<times> 'c \<times> perspective_camera"
  update :: "'c orbit_controls \<Rightarrow> perspective_camera \<Rightarrow> vec3 \<times> quat \<times> vec3 \<times> 'c \<times> bool"

text \<open>
  The state of the page: the four module variables, the store, the listeners and
  callbacks registered so far, the text the script wrote into the page, and the log
  of external calls.
\<close>

record 'c state =
  allViewers :: "viewer list"
  isSyncing :: bool
  isRotating :: bool
  isPaused :: bool
  next_id :: nat
  camera_heap :: "nat \<Rightarrow> perspective_camera"
  controls_heap :: "nat \<Rightarrow> 'c orbit_controls"
  scene_heap :: "nat \<Rightarrow> scene_obj"
  element_heap :: "nat \<Rightarrow> element"
  mouseup_listeners :: "nat list"
  loads :: "load_request list"
  animation_requested :: bool
  active_obj :: "string option"
  label_texts :: "string \<times> string"
  btn_rotate_text :: string
  btn_pause_text :: string
  effects :: "effect list"

section \<open>Camera synchronisation\<close>

text \<open>
  \<^verbatim>\<open>viewer.camera.position.copy(newPos)\<close> and \<^verbatim>\<open>viewer.camera.lookAt(target)\<close>:
  writes to the camera object at an address.
\<close>

definition position_copy :: "nat \<Rightarrow> vec3 \<Rightarrow> 'c state \<Rightarrow> 'c state" where
  "position_copy cam p st =
     st\<lparr>camera_heap := (camera_heap st)(cam := (camera_heap st cam)\<lparr>position := p\<rparr>)\<rparr>"

definition camera_lookAt :: "'c three \<Rightarrow> nat \<Rightarrow> vec3 \<Rightarrow> 'c state \<Rightarrow> 'c state" where
  "camera_lookAt L cam t st =
     st\<lparr>camera_heap := (camera_heap st)
          (cam := (camera_heap st cam)\<lparr>quaternion := lookAt L (camera_heap st cam) t\<rparr>)\<rparr>"

text \<open>
  The state change of \<^verbatim>\<open>controls.update()\<close> up to the point where the library
  dispatches \<^verbatim>\<open>change\<close>; the flag says whether it does.
\<close>

definition orbit_update :: "'c three \<Rightarrow> nat \<Rightarrow> 'c state \<Rightarrow> 'c state \<times> bool" where
  "orbit_update L c st =
     (let ctl = controls_heap st c;
          cam = camera_heap st (object ctl)
      in case update L ctl cam of
           (p, q, t, i, changed) \<Rightarrow>
             (st\<lparr>camera_heap := (camera_heap st)(object ctl := cam\<lparr>position := p, quaternion := q\<rparr>),
                 controls_heap := (controls_heap st)(c := ctl\<lparr>target := t, internal := i\<rparr>)\<rparr>,
              changed))"

text \<open>
  The body of the \<^verbatim>\<open>forEach\<close> callback of \<^verbatim>\<open>syncCameras\<close> for a viewer that is not
  the source: the camera is placed and turned (lines 30 to 34), then
  \<^verbatim>\<open>viewer.controls.update()\<close> runs (line 35). \<open>sync_viewer\<close> is the body up to the
  dispatch of \<^verbatim>\<open>change\<close> inside that call.
\<close>

definition place_camera :: "'c three \<Rightarrow> spherical \<Rightarrow> viewer \<Rightarrow> 'c state \<Rightarrow> 'c state" where
  "place_camera L sph v st =
     (let newPos = add L (setFromSphericalCoords L (radius sph) (phi sph) (theta sph))
                         (target (controls_heap st (controls v)));
          st1 = position_copy (camera v) newPos st
      in camera_lookAt L (camera v) (target (controls_heap st1 (controls v))) st1)"

definition sync_viewer :: "'c three \<Rightarrow> spherical \<Rightarrow> viewer \<Rightarrow> 'c state \<Rightarrow> 'c state \<times> bool" where
  "sync_viewer L sph v st = orbit_update L (controls v) (place_camera L sph v st)"

text \<open>
  The rank by which \<^verbatim>\<open>syncCameras\<close> below terminates. A call that finds the flag set
  returns at once; a call that finds it clear sets it before the loop, and neither the
  library calls nor a nested call clear it while the loop runs.
\<close>

definition sync_rank ::
  "('c three \<times> nat \<times> 'c state) + ('c three \<times> nat \<times> spherical \<times> viewer list \<times> 'c state)
     \<Rightarrow> nat \<times> nat" where
  "sync_rank x =
     (case x of
        Inl (L, c, st) \<Rightarrow> (if isSyncing st then 0 else 2, 0)
      | Inr (L, c, sph, vs, st) \<Rightarrow> (if isSyncing st then 1 else 3, length vs))"

text \<open>
  \<^verbatim>\<open>syncCameras\<close> (lines 19 to 39). When \<^verbatim>\<open>viewer.controls.update()\<close> dispatches
  \<^verbatim>\<open>change\<close>, the listener registered by \<^verbatim>\<open>initViewer\<close> (lines 102 to 104) runs
  synchronously: \<^verbatim>\<open>if (controls.userIsInteracting) syncCameras(controls)\<close>. That call
  is the recursion below.
\<close>

function syncCameras :: "'c three \<Rightarrow> nat \<Rightarrow> 'c state \<Rightarrow> 'c state"
  and syncCameras_forEach :: "'c three \<Rightarrow> nat \<Rightarrow> spherical \<Rightarrow> viewer list \<Rightarrow> 'c state \<Rightarrow> 'c state"
where
  "syncCameras L sourceControls st =
     (if isSyncing st then st
      else
        let st1 = st\<lparr>isSyncing := True\<rparr>;
            cam = camera_heap st1 (object (controls_heap st1 sourceControls));
            tgt = target (controls_heap st1 sourceControls);
            offset = subVectors L (position cam) tgt;
            sph = setFromVector3 L offset;
            st2 = syncCameras_forEach L sourceControls sph (allViewers st1) st1
        in st2\<lparr>isSyncing := False\<rparr>)"
| "syncCameras_forEach L sourceControls sph [] st = st"
| "syncCameras_forEach L sourceControls sph (v # rest) st =
     syncCameras_forEach L sourceControls sph rest
       (if controls v = sourceControls then st
        else case sync_viewer L sph v st of
               (st3, changed) \<Rightarrow>
                 if changed \<and> userIsInteracting (controls_heap st3 (controls v))
                 then syncCameras L (controls v) st3
                 else st3)"
  by pat_completeness auto

termination
proof (relation "inv_image (less_than <*lex*> less_than) sync_rank", goal_cases)
  case 1
  show ?case by (intro wf_inv_image wf_lex_prod wf_less_than)
next
  case (2 L sourceControls st st1 cam tgt offset sph)
  then show ?case by (simp add: sync_rank_def)
next
  case (3 L sourceControls sph v rest st st3 changed)
  from 3(2) have "isSyncing st3 = isSyncing st"
    by (auto simp add: sync_viewer_def place_camera_def orbit_update_def position_copy_def
        camera_lookAt_def Let_def split: prod.splits)
  then show ?case by (simp add: sync_rank_def)
next
  case (4 L sourceControls sph v rest st)
  show ?case
  proof (cases "controls v = sourceControls")
    case True
    then show ?thesis by (simp add: sync_rank_def)
  next
    case False
    obtain st3 changed where sv: "sync_viewer L sph v st = (st3, changed)"
      by (cases "sync_viewer L sph v st")
    then have f3: "isSyncing st3 = isSyncing st"
      by (auto simp add: sync_viewer_def place_camera_def orbit_update_def position_copy_def
          camera_lookAt_def Let_def split: prod.splits)
    show ?thesis
    proof (cases "changed \<and> userIsInteracting (controls_heap st3 (controls v))")
      case True
      with False sv 4 have "syncCameras_syncCameras_forEach_dom (Inl (L, controls v, st3))"
        by simp
      then have "isSyncing (syncCameras L (controls v) st3) = isSyncing st3"
        by (simp add: syncCameras.psimps Let_def)
      with False sv True f3 show ?thesis by (simp add: sync_rank_def)
    next
      case nested: False
      with False sv f3 show ?thesis by (auto simp add: sync_rank_def)
    qed
  qed
qed

text \<open>
  The \<^verbatim>\<open>change\<close> listener of lines 102 to 104, and \<^verbatim>\<open>controls.update()\<close> as the
  script sees it from outside a pass: the library's computation followed by the
  listener when \<^verbatim>\<open>change\<close> is dispatched.
\<close>

definition change_listener :: "'c three \<Rightarrow> nat \<Rightarrow> 'c state \<Rightarrow> 'c state" where
  "change_listener L c st =
     (if userIsInteracting (controls_heap st c) then syncCameras L c st else st)"

definition controls_update :: "'c three \<Rightarrow> nat \<Rightarrow> 'c state \<Rightarrow> 'c state" where
  "controls_update L c st =
     (case orbit_update L c st of
        (st1, changed) \<Rightarrow> if changed then change_listener L c st1 else st1)"

text \<open>The \<^verbatim>\<open>mousedown\<close> and \<^verbatim>\<open>mouseup\<close> listeners of lines 105 to 110.\<close>

definition set_userIsInteracting :: "bool \<Rightarrow> nat \<Rightarrow> 'c state \<Rightarrow> 'c state" where
  "set_userIsInteracting b c st =
     st\<lparr>controls_heap := (controls_heap st)(c := (controls_heap st c)\<lparr>userIsInteracting := b\<rparr>)\<rparr>"

definition mousedown :: "nat \<Rightarrow> 'c state \<Rightarrow> 'c state" where
  "mousedown c st = (if c \<in> set (mouseup_listeners st) then set_userIsInteracting True c st else st)"

definition mouseup :: "'c state \<Rightarrow> 'c state" where
  "mouseup st = fold (set_userIsInteracting False) (mouseup_listeners st) st"

section \<open>Sample metadata\<close>

text \<open>
  The names \<^verbatim>\<open>Object.prototype\<close> defines; a read of one of them on an object literal
  that has no own property of that name finds the inherited one.
\<close>

definition object_prototype_keys :: "string list" where
  "object_prototype_keys =
     [''constructor'', ''__proto__'', ''hasOwnProperty'', ''isPrototypeOf'',
      ''propertyIsEnumerable'', ''toLocaleString'', ''toString'', ''valueOf'',
      ''__defineGetter__'', ''__defineSetter__'', ''__lookupGetter__'', ''__lookupSetter__'']"

definition js_get :: "(string \<times> js_value) list \<Rightarrow> string \<Rightarrow> js_value" where
  "js_get own k =
     (case map_of own k of
        Some v \<Rightarrow> v
      | None \<Rightarrow> if k \<in> set object_prototype_keys then Inherited k else Undefined)"

text \<open>\<^verbatim>\<open>a || b\<close>: \<open>a\<close> unless it is falsy. Of the values here \<^verbatim>\<open>undefined\<close> and \<open>0\<close> are.\<close>

fun truthy :: "js_value \<Rightarrow> bool" where
  "truthy Undefined = False"
| "truthy (Number x) = (x \<noteq> 0)"
| "truthy (Labels a b) = True"
| "truthy (Inherited k) = True"

definition js_or :: "js_value \<Rightarrow> js_value \<Rightarrow> js_value" where
  "js_or a b = (if truthy a then a else b)"

definition scaleMap :: "(string \<times> js_value) list" where
  "scaleMap =
     [(''example_1'', Number 1.2),
      (''example_2'', Number 1.0),
      (''example_3'', Number 0.8)]"

text \<open>
  The label strings start with U+00AB and end with U+00BB; both are single code units
  below 256 and are written as characters of that code.
\<close>

definition quoted :: "string \<Rightarrow> string" where
  "quoted s = CHR 0xAB # '' '' @ s @ '' '' @ [CHR 0xBB]"

definition sampleLabels :: "(string \<times> js_value) list" where
  "sampleLabels =
     [(''example_1'', Labels (quoted ''Modern chair with slatted back'')
                             (quoted ''Baby pacifier with handle'')),
      (''example_2'', Labels (quoted ''Industrial screwdriver with cylindrical body and tapered tip'')
                             (quoted ''Ceremonial candle with pedestal base'')),
      (''example_3'', Labels (quoted ''Wooden chess pawn, polished'')
                             (quoted ''Wooden bar stool with cushioned seat''))]"

text \<open>
  \<^verbatim>\<open>${labels[i]}\<close> in the template: the element of the array, and the text
  \<^verbatim>\<open>undefined\<close> when \<^verbatim>\<open>labels\<close> is not an array (a number or an inherited function has
  no property \<open>0\<close> or \<open>1\<close>).
\<close>

fun label_text :: "js_value \<Rightarrow> nat \<Rightarrow> string" where
  "label_text (Labels a b) i = (if i = 0 then a else if i = 1 then b else ''undefined'')"
| "label_text v i = ''undefined''"

section \<open>Viewers\<close>

text \<open>
  \<^verbatim>\<open>initViewer\<close> (lines 42 to 158). The five objects it creates get the next five
  addresses: scene, camera, renderer, controls, loading indicator. The canvas
  \<^verbatim>\<open>renderer.domElement\<close> is named by the renderer's address. Lights, renderer
  settings and the \<^verbatim>\<open>resize\<close> listener do not enter any other part of the script and
  are left out.
\<close>

definition initViewer ::
  "'c three \<Rightarrow> nat \<Rightarrow> string option \<Rightarrow> bool \<Rightarrow> js_value \<Rightarrow> 'c state \<Rightarrow> viewer \<times> 'c state" where
  "initViewer L cont glbPath showGround scale st =
     (let sc = next_id st;
          cam = next_id st + 1;
          rnd = next_id st + 2;
          ctl = next_id st + 3;
          loading = next_id st + 4;
          cam0 = \<lparr>position = (0, 1.5, 3), quaternion = (0, 0, 0, 1)\<rparr>;
          e1 = (element_heap st)
                 (cont := (element_heap st cont)
                    \<lparr>children := children (element_heap st cont) @ [rnd]\<rparr>);
          e2 = e1(loading := \<lparr>className = ''loading'', innerText = ''Loading...'',
                              display = [], children = []\<rparr>);
          e3 = e2(cont := (e2 cont)\<lparr>children := children (e2 cont) @ [loading]\<rparr>)
      in case orbit_new L cam0 of
           (tgt, priv, cam1) \<Rightarrow>
             (\<lparr>scene = sc, camera = cam, renderer = rnd, controls = ctl, container = cont\<rparr>,
              st\<lparr>next_id := next_id st + 5,
                 camera_heap := (camera_heap st)(cam := cam1),
                 controls_heap := (controls_heap st)
                   (ctl := \<lparr>object = cam, target = tgt, enablePan = False,
                            enableZoom = False, autoRotate = True, autoRotateSpeed = 2,
                            userIsInteracting = False, internal = priv\<rparr>),
                 scene_heap := (scene_heap st)(sc := \<lparr>has_ground = showGround, models = []\<rparr>),
                 element_heap := e3,
                 mouseup_listeners := mouseup_listeners st @ [ctl],
                 loads := loads st @ [\<lparr>load_path = glbPath, load_scene = sc,
                                        load_scale = scale, load_loading = loading\<rparr>],
                 effects := effects st @ [Create_renderer rnd]\<rparr>))"

text \<open>The handle \<^verbatim>\<open>initViewer\<close> returns for container \<open>c\<close> when \<open>k\<close> is the next free address.\<close>

definition handle :: "nat \<Rightarrow> nat \<Rightarrow> viewer" where
  "handle k c = \<lparr>scene = k, camera = k + 1, renderer = k + 2, controls = k + 3, container = c\<rparr>"

text \<open>The two callbacks of \<^verbatim>\<open>loader.load\<close> (lines 122 to 146).\<close>

definition traverse_child :: "node \<Rightarrow> node" where
  "traverse_child child =
     (if isMesh child
      then child\<lparr>castShadow := True, receiveShadow := True,
                 node_material :=
                   map_option (\<lambda>m. m\<lparr>roughness := 0.3, metalness := 0.1,
                                       envMapIntensity := 1.5, needsUpdate := True\<rparr>)
                     (node_material child)\<rparr>
      else child)"

definition load_success :: "load_request \<Rightarrow> gltf_scene \<Rightarrow> 'c state \<Rightarrow> 'c state" where
  "load_success req gltf st =
     (let model = gltf\<lparr>model_scale := load_scale req, nodes := map traverse_child (nodes gltf)\<rparr>;
          sc = scene_heap st (load_scene req);
          loading = element_heap st (load_loading req)
      in st\<lparr>scene_heap := (scene_heap st)(load_scene req := sc\<lparr>models := models sc @ [model]\<rparr>),
            element_heap := (element_heap st)(load_loading req := loading\<lparr>display := ''none''\<rparr>)\<rparr>)"

definition load_failure :: "load_request \<Rightarrow> 'c state \<Rightarrow> 'c state" where
  "load_failure req st =
     (let loading = element_heap st (load_loading req)
      in st\<lparr>effects := effects st @ [Console_error ''Error loading GLB:''],
            element_heap := (element_heap st)
              (load_loading req := loading\<lparr>innerText := ''Error loading model''\<rparr>)\<rparr>)"

text \<open>\<^verbatim>\<open>clearViewers\<close> (lines 160 to 166).\<close>

definition clear_viewer :: "viewer \<Rightarrow> 'c state \<Rightarrow> 'c state" where
  "clear_viewer v st =
     st\<lparr>effects := effects st @ [Dispose (renderer v)],
        element_heap := (element_heap st)
          (container v := (element_heap st (container v))\<lparr>innerText := [], children := []\<rparr>)\<rparr>"

definition clearViewers :: "'c state \<Rightarrow> 'c state" where
  "clearViewers st = (fold clear_viewer (allViewers st) st)\<lparr>allViewers := []\<rparr>"

text \<open>\<^verbatim>\<open>animate\<close> (lines 168 to 174): one frame.\<close>

definition render_viewer :: "'c three \<Rightarrow> viewer \<Rightarrow> 'c state \<Rightarrow> 'c state" where
  "render_viewer L v st =
     (let st1 = controls_update L (controls v) st
      in st1\<lparr>effects := effects st1 @ [Render (renderer v) (scene v) (camera v)]\<rparr>)"

definition animate :: "'c three \<Rightarrow> 'c state \<Rightarrow> 'c state" where
  "animate L st =
     (let st1 = st\<lparr>animation_requested := True\<rparr>
      in fold (render_viewer L) (allViewers st1) st1)"

text \<open>\<^verbatim>\<open>v.controls.autoRotate = b\<close>, as the three \<^verbatim>\<open>forEach\<close> loops of the script do it.\<close>

definition set_autoRotate :: "bool \<Rightarrow> viewer \<Rightarrow> 'c state \<Rightarrow> 'c state" where
  "set_autoRotate b v st =
     st\<lparr>controls_heap := (controls_heap st)
          (controls v := (controls_heap st (controls v))\<lparr>autoRotate := b\<rparr>)\<rparr>"

text \<open>
  \<^verbatim>\<open>loadTab\<close> (lines 176 to 230). \<^verbatim>\<open>tabButton.dataset\<close> throws a \<^verbatim>\<open>TypeError\<close> when
  no element carries the name, after \<^verbatim>\<open>clearViewers\<close> has run. Assigning the template
  to \<^verbatim>\<open>innerHTML\<close> creates the three container elements afresh.
\<close>

definition loadTab :: "page \<Rightarrow> 'c three \<Rightarrow> string \<Rightarrow> 'c state \<Rightarrow> 'c state outcome" where
  "loadTab P L objName st =
     (let st1 = clearViewers st
      in case tab_button P objName of
           None \<Rightarrow> Threw TypeError st1
         | Some tabButton \<Rightarrow>
             let conditionPath = condition tabButton;
                 gen1Path = gen1 tabButton;
                 gen2Path = gen2 tabButton;
                 labels = js_or (js_get sampleLabels objName) (Labels ''Sample 1'' ''Sample 2'');
                 scale = js_or (js_get scaleMap objName) (Number 1.0);
                 condition_viewer = next_id st1;
                 gen1_viewer = next_id st1 + 1;
                 gen2_viewer = next_id st1 + 2;
                 blank = \<lparr>className = [], innerText = [], display = [], children = []\<rparr>;
                 st2 = st1\<lparr>next_id := next_id st1 + 3,
                           element_heap := (element_heap st1)
                             (condition_viewer := blank, gen1_viewer := blank, gen2_viewer := blank),
                           active_obj := Some objName,
                           label_texts := (label_text labels 0, label_text labels 1)\<rparr>
             in case initViewer L condition_viewer conditionPath False scale st2 of
                  (conditionViewer, st3) \<Rightarrow>
             case initViewer L gen1_viewer gen1Path True scale st3 of
                  (gen1Viewer, st4) \<Rightarrow>
             case initViewer L gen2_viewer gen2Path True scale st4 of
                  (gen2Viewer, st5) \<Rightarrow>
               let st6 = st5\<lparr>allViewers := [conditionViewer, gen1Viewer, gen2Viewer]\<rparr>
               in Returned (fold (set_autoRotate (isRotating st6)) (allViewers st6) st6))"

text \<open>The click handlers of the two toggle buttons (lines 237 to 252).\<close>

definition click_rotate :: "'c state \<Rightarrow> 'c state" where
  "click_rotate st =
     (let st1 = st\<lparr>isRotating := \<not> isRotating st\<rparr>;
          st2 = fold (set_autoRotate (isRotating st1)) (allViewers st1) st1
      in st2\<lparr>btn_rotate_text := (if isRotating st2 then ''Rotate: On'' else ''Rotate: Off'')\<rparr>)"

definition click_pause :: "'c state \<Rightarrow> 'c state" where
  "click_pause st =
     (let st1 = st\<lparr>isPaused := \<not> isPaused st\<rparr>
      in if isPaused st1
         then (fold (set_autoRotate False) (allViewers st1) st1)\<lparr>btn_pause_text := ''Play''\<rparr>
         else (fold (set_autoRotate (isRotating st1)) (allViewers st1) st1)
                \<lparr>btn_pause_text := ''Pause''\<rparr>)"

section \<open>The page as a transition system\<close>

fun state_of :: "'s outcome \<Rightarrow> 's" where
  "state_of (Returned s) = s"
| "state_of (Threw e s) = s"

text \<open>
  The module's initial state (lines 5 to 9) before any object exists. The heaps are
  total, so unused addresses hold a placeholder.
\<close>

definition init_state :: "page \<Rightarrow> 'c three \<Rightarrow> 'c state" where
  "init_state P L =
     (let cam0 = \<lparr>position = (0, 0, 0), quaternion = (0, 0, 0, 1)\<rparr>
      in case orbit_new L cam0 of
           (tgt, priv, cam1) \<Rightarrow>
             \<lparr>allViewers = [], isSyncing = False, isRotating = True, isPaused = False,
              next_id = 0,
              camera_heap = (\<lambda>a. cam0),
              controls_heap = (\<lambda>a. \<lparr>object = 0, target = tgt, enablePan = True, enableZoom = True,
                                      autoRotate = False, autoRotateSpeed = 2,
                                      userIsInteracting = False, internal = priv\<rparr>),
              scene_heap = (\<lambda>a. \<lparr>has_ground = False, models = []\<rparr>),
              element_heap = (\<lambda>a. \<lparr>className = [], innerText = [], display = [], children = []\<rparr>),
              mouseup_listeners = [], loads = [], animation_requested = False,
              active_obj = None, label_texts = ([], []),
              btn_rotate_text = rotate_caption P, btn_pause_text = pause_caption P,
              effects = []\<rparr>)"

text \<open>
  The \<^verbatim>\<open>DOMContentLoaded\<close> handler (lines 232 to 256) after it has registered the click
  listeners: the first sample is loaded and the frame loop started. When \<^verbatim>\<open>loadTab\<close>
  throws, the handler ends there and \<^verbatim>\<open>animate\<close> is never called.
\<close>

definition DOMContentLoaded :: "page \<Rightarrow> 'c three \<Rightarrow> 'c state outcome" where
  "DOMContentLoaded P L =
     (case loadTab P L ''example_1'' (init_state P L) of
        Threw e st \<Rightarrow> Threw e st
      | Returned st \<Rightarrow> Returned (animate L st))"

text \<open>
  What can happen to the page afterwards. \<open>Pointer_move c i\<close> is a pointer handler of
  the library on the canvas of controls \<open>c\<close>: it changes the private state of the
  controls and calls \<^verbatim>\<open>update()\<close>. \<open>Load_done k g\<close> and \<open>Load_failed k\<close> are the two
  callbacks of the \<open>k\<close>-th \<^verbatim>\<open>loader.load\<close> call. \<open>Frame\<close> is the callback of
  \<^verbatim>\<open>requestAnimationFrame\<close>.
\<close>

datatype 'c event =
    Click_tab string
  | Click_rotate
  | Click_pause
  | Mouse_down nat
  | Mouse_up
  | Pointer_move nat 'c
  | Frame
  | Load_done nat gltf_scene
  | Load_failed nat

fun fire :: "page \<Rightarrow> 'c three \<Rightarrow> 'c event \<Rightarrow> 'c state \<Rightarrow> 'c state" where
  "fire P L (Click_tab objName) st = state_of (loadTab P L objName st)"
| "fire P L Click_rotate st = click_rotate st"
| "fire P L Click_pause st = click_pause st"
| "fire P L (Mouse_down c) st = mousedown c st"
| "fire P L Mouse_up st = mouseup st"
| "fire P L (Pointer_move c i) st =
     (if c \<in> set (mouseup_listeners st)
      then controls_update L c
             (st\<lparr>controls_heap := (controls_heap st)(c := (controls_heap st c)\<lparr>internal := i\<rparr>)\<rparr>)
      else st)"
| "fire P L Frame st = (if animation_requested st then animate L st else st)"
| "fire P L (Load_done k gltf) st =
     (if k < length (loads st) then load_success (loads st ! k) gltf st else st)"
| "fire P L (Load_failed k) st =
     (if k < length (loads st) then load_failure (loads st ! k) st else st)"

fun run :: "page \<Rightarrow> 'c three \<Rightarrow> 'c event list \<Rightarrow> 'c state \<Rightarrow> 'c state" where
  "run P L [] st = st"
| "run P L (e # es) st = run P L es (fire P L e st)"

section \<open>Invariants and footprints\<close>

text \<open>
  Every viewer that \<^verbatim>\<open>initViewer\<close> builds has a camera and a controls object of its own,
  and its controls drive its own camera. \<open>wf_state\<close> says so of the current group.
\<close>

definition wf_state :: "'c state \<Rightarrow> bool" where
  "wf_state st \<longleftrightarrow>
     distinct (map controls (allViewers st)) \<and>
     distinct (map camera (allViewers st)) \<and>
     list_all (\<lambda>v. object (controls_heap st (controls v)) = camera v \<and>
                    controls v < next_id st \<and> camera v < next_id st \<and> renderer v < next_id st)
       (allViewers st)"

text \<open>
  \<open>same_page st st'\<close>: the two states differ at most in the flag \<^verbatim>\<open>isSyncing\<close> and in
  the heaps of cameras and controls, the only ones a synchronisation pass writes to.
\<close>

definition same_page :: "'c state \<Rightarrow> 'c state \<Rightarrow> bool" where
  "same_page st st' \<longleftrightarrow>
     allViewers st' = allViewers st \<and> isRotating st' = isRotating st \<and>
     isPaused st' = isPaused st \<and> next_id st' = next_id st \<and>
     scene_heap st' = scene_heap st \<and> element_heap st' = element_heap st \<and>
     mouseup_listeners st' = mouseup_listeners st \<and> loads st' = loads st \<and>
     animation_requested st' = animation_requested st \<and> active_obj st' = active_obj st \<and>
     label_texts st' = label_texts st \<and> btn_rotate_text st' = btn_rotate_text st \<and>
     btn_pause_text st' = btn_pause_text st \<and> effects st' = effects st"

text \<open>
  \<open>same_config k k'\<close>: two controls objects that differ at most in target and private
  state. \<open>modifies Cs As st st'\<close>: from \<open>st\<close> to \<open>st'\<close> only controls objects at
  addresses in \<open>Cs\<close> and cameras at addresses in \<open>As\<close> changed, and of a controls
  object only the target and the private state.
\<close>

definition same_config :: "'c orbit_controls \<Rightarrow> 'c orbit_controls \<Rightarrow> bool" where
  "same_config k k' \<longleftrightarrow>
     object k' = object k \<and> enablePan k' = enablePan k \<and> enableZoom k' = enableZoom k \<and>
     autoRotate k' = autoRotate k \<and> autoRotateSpeed k' = autoRotateSpeed k \<and>
     userIsInteracting k' = userIsInteracting k"

definition modifies :: "nat set \<Rightarrow> nat set \<Rightarrow> 'c state \<Rightarrow> 'c state \<Rightarrow> bool" where
  "modifies Cs As st st' \<longleftrightarrow>
     same_page st st' \<and> isSyncing st' = isSyncing st \<and>
     (\<forall>c. c \<notin> Cs \<longrightarrow> controls_heap st' c = controls_heap st c) \<and>
     (\<forall>c. same_config (controls_heap st c) (controls_heap st' c)) \<and>
     (\<forall>a. a \<notin> As \<longrightarrow> camera_heap st' a = camera_heap st a)"

text \<open>
  \<open>keeps_group st st'\<close>: the group, the three flags, the address counter, and of every
  controls object the camera it drives and its auto-rotate flag are the same in both
  states.
\<close>

definition keeps_group :: "'c state \<Rightarrow> 'c state \<Rightarrow> bool" where
  "keeps_group st st' \<longleftrightarrow>
     allViewers st' = allViewers st \<and> isSyncing st' = isSyncing st \<and>
     isRotating st' = isRotating st \<and> isPaused st' = isPaused st \<and>
     next_id st' = next_id st \<and>
     (\<forall>c. object (controls_heap st' c) = object (controls_heap st c) \<and>
          autoRotate (controls_heap st' c) = autoRotate (controls_heap st c))"

text \<open>The viewers a pass started from \<open>src\<close> writes to, and the addresses it writes.\<close>

definition others :: "nat \<Rightarrow> 'c state \<Rightarrow> viewer list" where
  "others src st = filter (\<lambda>v. controls v \<noteq> src) (allViewers st)"

definition others_controls :: "nat \<Rightarrow> 'c state \<Rightarrow> nat set" where
  "others_controls src st = controls ` set (others src st)"

definition others_cameras :: "nat \<Rightarrow> 'c state \<Rightarrow> nat set" where
  "others_cameras src st =
     camera ` set (others src st) \<union>
     (\<lambda>v. object (controls_heap st (controls v))) ` set (others src st)"




text \<open>The events that are neither a click on a toggle nor a sample switch.\<close>

fun quiet :: "'c event \<Rightarrow> bool" where
  "quiet (Click_tab objName) = False"
| "quiet Click_rotate = False"
| "quiet Click_pause = False"
| "quiet e = True"

text \<open>The auto-rotate flags of the current group, in the order of the group.\<close>

definition autoRotate_flags :: "'c state \<Rightarrow> bool list" where
  "autoRotate_flags st = map (\<lambda>v. autoRotate (controls_heap st (controls v))) (allViewers st)"

section \<open>A page and a library to run the script on\<close>

text \<open>
  A library instance for concrete runs. It is not three.js: vectors are added and
  subtracted exactly, the spherical form of a vector is the vector itself,
  \<^verbatim>\<open>lookAt\<close> and \<^verbatim>\<open>update()\<close> leave camera and controls as they are, and
  \<^verbatim>\<open>update()\<close> always dispatches \<^verbatim>\<open>change\<close>.
\<close>

definition test_three :: "unit three" where
  "test_three =
     \<lparr>subVectors = (\<lambda>(a, b, c) (x, y, z). (a - x, b - y, c - z)),
      setFromVector3 = (\<lambda>(x, y, z). \<lparr>radius = x, phi = y, theta = z\<rparr>),
      setFromSphericalCoords = (\<lambda>r p t. (r, p, t)),
      add = (\<lambda>(a, b, c) (x, y, z). (a + x, b + y, c + z)),
      lookAt = (\<lambda>cam t. quaternion cam),
      orbit_new = (\<lambda>cam. ((0, 0, 0), (), cam)),
      update = (\<lambda>ctl cam. (position cam, quaternion cam, target ctl, internal ctl, True))\<rparr>"


text \<open>A page with two tabs, \<^verbatim>\<open>example_1\<close> and one whose name is \<^verbatim>\<open>constructor\<close>.\<close>

definition test_page :: page where
  "test_page =
     \<lparr>tab_button = (\<lambda>k.
        if k = ''example_1''
        then Some \<lparr>condition = Some ''c1.glb'', gen1 = Some ''a1.glb'', gen2 = Some ''b1.glb''\<rparr>
        else if k = ''constructor''
        then Some \<lparr>condition = Some ''c2.glb'', gen1 = Some ''a2.glb'', gen2 = Some ''b2.glb''\<rparr>
        else None),
      rotate_caption = ''Rotate: On'',
      pause_caption = ''Pause''\<rparr>"

text \<open>The page after its first sample has been loaded.\<close>

definition test_state :: "unit state" where
  "test_state = state_of (loadTab test_page test_three ''example_1'' (init_state test_page test_three))"

section \<open>Footprint of a synchronisation pass\<close>

lemma same_page_refl: "same_page st st"
  by (simp add: same_page_def)

lemma same_page_trans: "same_page a b \<Longrightarrow> same_page b c \<Longrightarrow> same_page a c"
  by (simp add: same_page_def)

lemma modifies_refl: "modifies Cs As st st"
  by (simp add: modifies_def same_page_def same_config_def)

lemma modifies_trans:
  "modifies Cs As a b \<Longrightarrow> modifies Cs' As' b c \<Longrightarrow> modifies (Cs \<union> Cs') (As \<union> As') a c"
  by (simp add: modifies_def same_page_def same_config_def)

lemma modifies_mono:
  "modifies Cs As a b \<Longrightarrow> Cs \<subseteq> Cs' \<Longrightarrow> As \<subseteq> As' \<Longrightarrow> modifies Cs' As' a b"
  by (auto simp add: modifies_def)

lemma position_copy_modifies: "modifies {} {a} st (position_copy a p st)"
  by (simp add: position_copy_def modifies_def same_page_def same_config_def)

lemma camera_lookAt_modifies: "modifies {} {a} st (camera_lookAt L a t st)"
  by (simp add: camera_lookAt_def modifies_def same_page_def same_config_def)

lemma orbit_update_modifies:
  "modifies {c} {object (controls_heap st c)} st (fst (orbit_update L c st))"
  by (simp add: orbit_update_def Let_def modifies_def same_page_def same_config_def
      split: prod.splits)

lemma sync_viewer_modifies:
  "sync_viewer L sph v st = (st3, ch) \<Longrightarrow>
   modifies {controls v} {camera v, object (controls_heap st (controls v))} st st3"
proof -
  assume sv: "sync_viewer L sph v st = (st3, ch)"
  let ?p = "add L (setFromSphericalCoords L (radius sph) (phi sph) (theta sph))
                  (target (controls_heap st (controls v)))"
  let ?st1 = "position_copy (camera v) ?p st"
  let ?st2 = "camera_lookAt L (camera v) (target (controls_heap ?st1 (controls v))) ?st1"
  have m1: "modifies {} {camera v} st ?st1" by (rule position_copy_modifies)
  have m2: "modifies {} {camera v} ?st1 ?st2" by (rule camera_lookAt_modifies)
  have m3: "modifies {controls v} {object (controls_heap ?st2 (controls v))} ?st2
              (fst (orbit_update L (controls v) ?st2))"
    by (rule orbit_update_modifies)
  have o: "object (controls_heap ?st2 (controls v)) = object (controls_heap st (controls v))"
    by (simp add: position_copy_def camera_lookAt_def)
  have e: "st3 = fst (orbit_update L (controls v) ?st2)"
    using sv by (simp add: sync_viewer_def place_camera_def Let_def)
  from modifies_trans [OF modifies_trans [OF m1 m2] m3]
  show ?thesis unfolding e o by (rule modifies_mono) auto
qed

lemma syncCameras_guard: "isSyncing st \<Longrightarrow> syncCameras L c st = st"
  by simp

lemma forEach_flagged_Cons:
  "isSyncing st \<Longrightarrow>
   syncCameras_forEach L src sph (v # rest) st =
   syncCameras_forEach L src sph rest
     (if controls v = src then st else fst (sync_viewer L sph v st))"
proof (cases "controls v = src")
  case True
  then show ?thesis by simp
next
  case False
  assume flag: "isSyncing st"
  obtain st3 ch where sv: "sync_viewer L sph v st = (st3, ch)"
    by (cases "sync_viewer L sph v st")
  from sync_viewer_modifies [OF sv] flag have "isSyncing st3"
    by (simp add: modifies_def)
  then have "syncCameras L (controls v) st3 = st3"
    by (rule syncCameras_guard)
  with False sv show ?thesis by simp
qed

lemma forEach_modifies:
  "isSyncing st \<Longrightarrow>
   modifies (controls ` {v \<in> set vs. controls v \<noteq> src})
            (camera ` {v \<in> set vs. controls v \<noteq> src} \<union>
             (\<lambda>v. object (controls_heap st (controls v))) ` {v \<in> set vs. controls v \<noteq> src})
            st (syncCameras_forEach L src sph vs st)"
proof (induction vs arbitrary: st)
  case Nil
  show ?case by (simp add: modifies_refl)
next
  case (Cons v vs)
  let ?O = "\<lambda>st vs. camera ` {v \<in> set vs. controls v \<noteq> src} \<union>
             (\<lambda>v. object (controls_heap st (controls v))) ` {v \<in> set vs. controls v \<noteq> src}"
  show ?case
  proof (cases "controls v = src")
    case True
    have eq: "{w \<in> set (v # vs). controls w \<noteq> src} = {w \<in> set vs. controls w \<noteq> src}"
      using True by auto
    have step: "syncCameras_forEach L src sph (v # vs) st = syncCameras_forEach L src sph vs st"
      using True by simp
    from Cons.IH [OF Cons.prems] show ?thesis
      unfolding step eq .
  next
    case False
    obtain st3 ch where sv: "sync_viewer L sph v st = (st3, ch)"
      by (cases "sync_viewer L sph v st")
    note m1 = sync_viewer_modifies [OF sv]
    with Cons.prems have flag3: "isSyncing st3" by (simp add: modifies_def)
    note m2 = Cons.IH [OF flag3]
    have obj: "object (controls_heap st3 c) = object (controls_heap st c)" for c
      using m1 by (simp add: modifies_def same_config_def)
    have step: "syncCameras_forEach L src sph (v # vs) st = syncCameras_forEach L src sph vs st3"
      using False sv Cons.prems by (simp only: forEach_flagged_Cons if_False fst_conv)
    have "modifies ({controls v} \<union> controls ` {v \<in> set vs. controls v \<noteq> src})
            ({camera v, object (controls_heap st (controls v))} \<union> ?O st3 vs)
            st (syncCameras_forEach L src sph vs st3)"
      by (rule modifies_trans [OF m1 m2])
    then show ?thesis
      unfolding step
      by (rule modifies_mono) (use False in \<open>auto simp add: obj\<close>)
  qed
qed

lemma syncCameras_modifies:
  "modifies (others_controls src st) (others_cameras src st) st (syncCameras L src st)"
proof (cases "isSyncing st")
  case True
  then show ?thesis by (simp add: modifies_refl)
next
  case False
  let ?st1 = "st\<lparr>isSyncing := True\<rparr>"
  let ?sph = "setFromVector3 L (subVectors L (position (camera_heap ?st1 (object (controls_heap ?st1 src))))
       (target (controls_heap ?st1 src)))"
  have m: "modifies (controls ` {v \<in> set (allViewers ?st1). controls v \<noteq> src})
            (camera ` {v \<in> set (allViewers ?st1). controls v \<noteq> src} \<union>
             (\<lambda>v. object (controls_heap ?st1 (controls v))) ` {v \<in> set (allViewers ?st1). controls v \<noteq> src})
            ?st1 (syncCameras_forEach L src ?sph (allViewers ?st1) ?st1)"
    by (rule forEach_modifies) simp
  have r: "syncCameras L src st = (syncCameras_forEach L src ?sph (allViewers ?st1) ?st1)\<lparr>isSyncing := False\<rparr>"
    using False by (simp add: Let_def)
  show ?thesis
    unfolding r using m False
    by (simp add: modifies_def same_page_def others_controls_def others_cameras_def others_def)
qed

section \<open>Symbolic execution of the loops and of \<^verbatim>\<open>loadTab\<close>\<close>

lemma fold_set_autoRotate:
  "fold (set_autoRotate b) vs st =
   st\<lparr>controls_heap := (\<lambda>c. if c \<in> controls ` set vs
                               then (controls_heap st c)\<lparr>autoRotate := b\<rparr>
                               else controls_heap st c)\<rparr>"
proof (induction vs arbitrary: st)
  case Nil
  show ?case by simp
next
  case (Cons v vs)
  have "(\<lambda>c. if c \<in> controls ` set vs
             then (controls_heap (set_autoRotate b v st) c)\<lparr>autoRotate := b\<rparr>
             else controls_heap (set_autoRotate b v st) c) =
        (\<lambda>c. if c \<in> controls ` set (v # vs)
             then (controls_heap st c)\<lparr>autoRotate := b\<rparr>
             else controls_heap st c)"
    by (auto simp add: set_autoRotate_def fun_eq_iff)
  then show ?case
    by (simp add: Cons.IH) (simp add: set_autoRotate_def)
qed

lemma fold_set_userIsInteracting:
  "fold (set_userIsInteracting b) cs st =
   st\<lparr>controls_heap := (\<lambda>c. if c \<in> set cs
                               then (controls_heap st c)\<lparr>userIsInteracting := b\<rparr>
                               else controls_heap st c)\<rparr>"
proof (induction cs arbitrary: st)
  case Nil
  show ?case by simp
next
  case (Cons x cs)
  have "(\<lambda>c. if c \<in> set cs
             then (controls_heap (set_userIsInteracting b x st) c)\<lparr>userIsInteracting := b\<rparr>
             else controls_heap (set_userIsInteracting b x st) c) =
        (\<lambda>c. if c \<in> set (x # cs)
             then (controls_heap st c)\<lparr>userIsInteracting := b\<rparr>
             else controls_heap st c)"
    by (auto simp add: set_userIsInteracting_def fun_eq_iff)
  then show ?case
    by (simp add: Cons.IH) (simp add: set_userIsInteracting_def)
qed

lemma fold_clear_viewer:
  "fold clear_viewer vs st =
   st\<lparr>effects := effects st @ map (\<lambda>v. Dispose (renderer v)) vs,
      element_heap := (\<lambda>e. if e \<in> container ` set vs
                              then (element_heap st e)\<lparr>innerText := [], children := []\<rparr>
                              else element_heap st e)\<rparr>"
proof (induction vs arbitrary: st)
  case Nil
  show ?case by simp
next
  case (Cons v vs)
  have "(\<lambda>e. if e \<in> container ` set vs
             then (element_heap (clear_viewer v st) e)\<lparr>innerText := [], children := []\<rparr>
             else element_heap (clear_viewer v st) e) =
        (\<lambda>e. if e \<in> container ` set (v # vs)
             then (element_heap st e)\<lparr>innerText := [], children := []\<rparr>
             else element_heap st e)"
    by (auto simp add: clear_viewer_def fun_eq_iff)
  then show ?case
    by (simp add: Cons.IH) (simp add: clear_viewer_def)
qed

lemma initViewer_fst:
  "fst (initViewer L cont p g sc st) =
   \<lparr>scene = next_id st, camera = next_id st + 1, renderer = next_id st + 2,
    controls = next_id st + 3, container = cont\<rparr>"
  by (simp add: initViewer_def Let_def split: prod.splits)

lemma initViewer_fields:
  "allViewers (snd (initViewer L cont p g sc st)) = allViewers st"
  "isSyncing (snd (initViewer L cont p g sc st)) = isSyncing st"
  "isRotating (snd (initViewer L cont p g sc st)) = isRotating st"
  "isPaused (snd (initViewer L cont p g sc st)) = isPaused st"
  "next_id (snd (initViewer L cont p g sc st)) = next_id st + 5"
  "camera_heap (snd (initViewer L cont p g sc st)) =
     (camera_heap st)
       (next_id st + 1 := snd (snd (orbit_new L \<lparr>position = (0, 1.5, 3), quaternion = (0, 0, 0, 1)\<rparr>)))"
  "controls_heap (snd (initViewer L cont p g sc st)) =
     (controls_heap st)
       (next_id st + 3 :=
          \<lparr>object = next_id st + 1,
           target = fst (orbit_new L \<lparr>position = (0, 1.5, 3), quaternion = (0, 0, 0, 1)\<rparr>),
           enablePan = False, enableZoom = False, autoRotate = True, autoRotateSpeed = 2,
           userIsInteracting = False,
           internal = fst (snd (orbit_new L \<lparr>position = (0, 1.5, 3), quaternion = (0, 0, 0, 1)\<rparr>))\<rparr>)"
  "scene_heap (snd (initViewer L cont p g sc st)) =
     (scene_heap st)(next_id st := \<lparr>has_ground = g, models = []\<rparr>)"
  "mouseup_listeners (snd (initViewer L cont p g sc st)) = mouseup_listeners st @ [next_id st + 3]"
  "loads (snd (initViewer L cont p g sc st)) =
     loads st @ [\<lparr>load_path = p, load_scene = next_id st, load_scale = sc,
                  load_loading = next_id st + 4\<rparr>]"
  "animation_requested (snd (initViewer L cont p g sc st)) = animation_requested st"
  "active_obj (snd (initViewer L cont p g sc st)) = active_obj st"
  "label_texts (snd (initViewer L cont p g sc st)) = label_texts st"
  "btn_rotate_text (snd (initViewer L cont p g sc st)) = btn_rotate_text st"
  "btn_pause_text (snd (initViewer L cont p g sc st)) = btn_pause_text st"
  "effects (snd (initViewer L cont p g sc st)) = effects st @ [Create_renderer (next_id st + 2)]"
  by (simp_all add: initViewer_def Let_def split: prod.splits)

lemma clearViewers_eq:
  "clearViewers st =
   st\<lparr>allViewers := [],
      effects := effects st @ map (\<lambda>v. Dispose (renderer v)) (allViewers st),
      element_heap := (\<lambda>e. if e \<in> container ` set (allViewers st)
                              then (element_heap st e)\<lparr>innerText := [], children := []\<rparr>
                              else element_heap st e)\<rparr>"
  by (simp add: clearViewers_def fold_clear_viewer)

lemmas loadTab_unfold =
  loadTab_def Let_def case_prod_beta initViewer_fst initViewer_fields clearViewers_eq
  fold_set_autoRotate

lemma loadTab_Returned:
  "tab_button P objName = Some d \<Longrightarrow> \<exists>st'. loadTab P L objName st = Returned st'"
  by (simp add: loadTab_def Let_def case_prod_beta)

lemma loadTab_allViewers:
  "tab_button P objName = Some d \<Longrightarrow>
   allViewers (state_of (loadTab P L objName st)) =
     [handle (next_id st + 3) (next_id st), handle (next_id st + 8) (next_id st + 1),
      handle (next_id st + 13) (next_id st + 2)]"
  by (simp add: loadTab_unfold handle_def)

lemma loadTab_flags:
  "isSyncing (state_of (loadTab P L objName st)) = isSyncing st"
  "isRotating (state_of (loadTab P L objName st)) = isRotating st"
  "isPaused (state_of (loadTab P L objName st)) = isPaused st"
  by (simp_all add: loadTab_unfold split: option.splits)

lemma loadTab_effects:
  "tab_button P objName = Some d \<Longrightarrow>
   effects (state_of (loadTab P L objName st)) =
     effects st @ map (\<lambda>v. Dispose (renderer v)) (allViewers st) @
     [Create_renderer (next_id st + 5), Create_renderer (next_id st + 10),
      Create_renderer (next_id st + 15)]"
  by (simp add: loadTab_unfold)

lemma loadTab_loads:
  "tab_button P objName = Some d \<Longrightarrow>
   loads (state_of (loadTab P L objName st)) =
     loads st @
     [\<lparr>load_path = condition d, load_scene = next_id st + 3,
       load_scale = js_or (js_get scaleMap objName) (Number 1), load_loading = next_id st + 7\<rparr>,
      \<lparr>load_path = gen1 d, load_scene = next_id st + 8,
       load_scale = js_or (js_get scaleMap objName) (Number 1), load_loading = next_id st + 12\<rparr>,
      \<lparr>load_path = gen2 d, load_scene = next_id st + 13,
       load_scale = js_or (js_get scaleMap objName) (Number 1), load_loading = next_id st + 17\<rparr>]"
  by (simp add: loadTab_unfold)

lemma loadTab_label_texts:
  "tab_button P objName = Some d \<Longrightarrow>
   label_texts (state_of (loadTab P L objName st)) =
     (label_text (js_or (js_get sampleLabels objName) (Labels ''Sample 1'' ''Sample 2'')) 0,
      label_text (js_or (js_get sampleLabels objName) (Labels ''Sample 1'' ''Sample 2'')) 1)"
  by (simp add: loadTab_unfold)

lemma loadTab_controls_heap:
  "tab_button P objName = Some d \<Longrightarrow>
   controls_heap (state_of (loadTab P L objName st)) =
     (\<lambda>c. if c \<in> {next_id st + 6, next_id st + 11, next_id st + 16}
          then \<lparr>object = c - 2,
                target = fst (orbit_new L \<lparr>position = (0, 1.5, 3), quaternion = (0, 0, 0, 1)\<rparr>),
                enablePan = False, enableZoom = False, autoRotate = isRotating st,
                autoRotateSpeed = 2, userIsInteracting = False,
                internal = fst (snd (orbit_new L \<lparr>position = (0, 1.5, 3), quaternion = (0, 0, 0, 1)\<rparr>))\<rparr>
          else controls_heap st c)"
  by (auto simp add: loadTab_unfold fun_eq_iff)


lemma loadTab_Threw:
  "tab_button P objName = None \<Longrightarrow> loadTab P L objName st = Threw TypeError (clearViewers st)"
  by (simp add: loadTab_def Let_def)

section \<open>What the handlers leave alone\<close>

lemma keeps_group_refl: "keeps_group st st"
  by (simp add: keeps_group_def)

lemma keeps_group_trans: "keeps_group a b \<Longrightarrow> keeps_group b c \<Longrightarrow> keeps_group a c"
  by (simp add: keeps_group_def)

lemma modifies_keeps_group: "modifies Cs As st st' \<Longrightarrow> keeps_group st st'"
  by (simp add: modifies_def same_page_def same_config_def keeps_group_def)

lemma controls_update_modifies: "modifies UNIV UNIV st (controls_update L c st)"
proof -
  obtain st1 ch where ou: "orbit_update L c st = (st1, ch)"
    by (cases "orbit_update L c st")
  have m1: "modifies UNIV UNIV st st1"
    using orbit_update_modifies [of c st L] ou by (auto intro: modifies_mono)
  have m2: "modifies UNIV UNIV st1 (syncCameras L c st1)"
    using syncCameras_modifies [of c st1 L] by (auto intro: modifies_mono)
  have "modifies UNIV UNIV st1 (if ch then change_listener L c st1 else st1)"
    using m2 by (simp add: change_listener_def modifies_refl)
  with m1 have "modifies (UNIV \<union> UNIV) (UNIV \<union> UNIV) st (if ch then change_listener L c st1 else st1)"
    by (rule modifies_trans)
  then show ?thesis by (simp add: controls_update_def ou)
qed

text \<open>
  Inside the loop of \<^verbatim>\<open>syncCameras\<close>, \<^verbatim>\<open>viewer.controls.update()\<close> is the same call as
  anywhere else, listener included.
\<close>

lemma syncCameras_forEach_Cons_update:
  "syncCameras_forEach L src sph (v # rest) st =
   syncCameras_forEach L src sph rest
     (if controls v = src then st
      else controls_update L (controls v) (place_camera L sph v st))"
  by (simp add: controls_update_def change_listener_def sync_viewer_def split: prod.splits)

lemma render_viewer_keeps_group: "keeps_group st (render_viewer L v st)"
  using modifies_keeps_group [OF controls_update_modifies, of st L "controls v"]
  by (simp add: render_viewer_def Let_def keeps_group_def)

lemma fold_keeps_group:
  "(\<And>x s. keeps_group s (f x s)) \<Longrightarrow> keeps_group st (fold f xs st)"
proof (induction xs arbitrary: st)
  case Nil
  show ?case by (simp add: keeps_group_refl)
next
  case (Cons x xs)
  from Cons.prems have "keeps_group st (f x st)" .
  moreover from Cons.IH Cons.prems have "keeps_group (f x st) (fold f xs (f x st))" .
  ultimately show ?case by (simp add: keeps_group_trans)
qed

lemma animate_keeps_group: "keeps_group st (animate L st)"
proof -
  have "keeps_group (st\<lparr>animation_requested := True\<rparr>)
          (fold (render_viewer L) (allViewers st) (st\<lparr>animation_requested := True\<rparr>))"
    by (rule fold_keeps_group) (rule render_viewer_keeps_group)
  then show ?thesis by (simp add: animate_def Let_def keeps_group_def)
qed

lemma mousedown_keeps_group: "keeps_group st (mousedown c st)"
  by (simp add: mousedown_def set_userIsInteracting_def keeps_group_def)

lemma mouseup_keeps_group: "keeps_group st (mouseup st)"
  by (simp add: mouseup_def fold_set_userIsInteracting keeps_group_def)

lemma load_success_keeps_group: "keeps_group st (load_success req g st)"
  by (simp add: load_success_def Let_def keeps_group_def)

lemma load_failure_keeps_group: "keeps_group st (load_failure req st)"
  by (simp add: load_failure_def Let_def keeps_group_def)

lemma quiet_keeps_group: "quiet e \<Longrightarrow> keeps_group st (fire P L e st)"
proof (cases e)
  case (Pointer_move c i)
  let ?st0 = "st\<lparr>controls_heap := (controls_heap st)(c := (controls_heap st c)\<lparr>internal := i\<rparr>)\<rparr>"
  have "keeps_group st ?st0" by (simp add: keeps_group_def)
  moreover have "keeps_group ?st0 (controls_update L c ?st0)"
    by (rule modifies_keeps_group [OF controls_update_modifies])
  ultimately have "keeps_group st (controls_update L c ?st0)" by (rule keeps_group_trans)
  then show ?thesis using Pointer_move by (simp add: keeps_group_refl)
qed (simp_all add: keeps_group_refl animate_keeps_group mousedown_keeps_group mouseup_keeps_group
      load_success_keeps_group load_failure_keeps_group)

lemma run_quiet_keeps_group: "list_all quiet es \<Longrightarrow> keeps_group st (run P L es st)"
proof (induction es arbitrary: st)
  case Nil
  show ?case by (simp add: keeps_group_refl)
next
  case (Cons e es)
  then have "keeps_group st (fire P L e st)" and "keeps_group (fire P L e st) (run P L es (fire P L e st))"
    by (simp_all add: quiet_keeps_group)
  then show ?case by (simp add: keeps_group_trans)
qed

lemma keeps_group_wf: "keeps_group st st' \<Longrightarrow> wf_state st \<Longrightarrow> wf_state st'"
  by (simp add: keeps_group_def wf_state_def)

lemma click_pause_fields:
  "allViewers (click_pause st) = allViewers st"
  "isSyncing (click_pause st) = isSyncing st"
  "isRotating (click_pause st) = isRotating st"
  "isPaused (click_pause st) = (\<not> isPaused st)"
  "next_id (click_pause st) = next_id st"
  "controls_heap (click_pause st) =
     (\<lambda>c. if c \<in> controls ` set (allViewers st)
          then (controls_heap st c)\<lparr>autoRotate := (isPaused st \<and> isRotating st)\<rparr>
          else controls_heap st c)"
  by (simp_all add: click_pause_def Let_def fold_set_autoRotate cong: if_cong)

lemma click_rotate_fields:
  "allViewers (click_rotate st) = allViewers st"
  "isSyncing (click_rotate st) = isSyncing st"
  "isRotating (click_rotate st) = (\<not> isRotating st)"
  "isPaused (click_rotate st) = isPaused st"
  "next_id (click_rotate st) = next_id st"
  "controls_heap (click_rotate st) =
     (\<lambda>c. if c \<in> controls ` set (allViewers st)
          then (controls_heap st c)\<lparr>autoRotate := (\<not> isRotating st)\<rparr>
          else controls_heap st c)"
  by (simp_all add: click_rotate_def Let_def fold_set_autoRotate cong: if_cong)

lemma click_wf: "wf_state st \<Longrightarrow> wf_state (click_rotate st)" "wf_state st \<Longrightarrow> wf_state (click_pause st)"
  by (simp_all add: click_rotate_fields click_pause_fields wf_state_def list_all_iff)

lemma loadTab_wf: "wf_state (state_of (loadTab P L objName st))"
proof (cases "tab_button P objName")
  case None
  then show ?thesis by (simp add: loadTab_Threw clearViewers_eq wf_state_def)
next
  case (Some d)
  then show ?thesis
    by (simp add: wf_state_def loadTab_allViewers loadTab_controls_heap handle_def)
       (simp add: loadTab_unfold)
qed

lemma init_state_wf: "wf_state (init_state P L)"
  by (simp add: init_state_def wf_state_def Let_def split: prod.splits)

lemma fire_wf: "wf_state st \<Longrightarrow> wf_state (fire P L e st)"
proof (cases "quiet e")
  case True
  assume "wf_state st"
  with quiet_keeps_group [OF True] show ?thesis by (rule keeps_group_wf)
next
  case False
  assume "wf_state st"
  with False show ?thesis by (cases e) (simp_all add: loadTab_wf click_wf)
qed

lemma run_wf: "wf_state st \<Longrightarrow> wf_state (run P L es st)"
  by (induction es arbitrary: st) (simp_all add: fire_wf)

lemma fire_isSyncing: "isSyncing (fire P L e st) = isSyncing st"
proof (cases "quiet e")
  case True
  from quiet_keeps_group [OF True] show ?thesis by (simp add: keeps_group_def)
next
  case False
  then show ?thesis by (cases e) (simp_all add: loadTab_flags click_rotate_fields click_pause_fields)
qed

lemma run_isSyncing: "isSyncing (run P L es st) = isSyncing st"
  by (induction es arbitrary: st) (simp_all add: fire_isSyncing)

lemma loadTab_next_id:
  "tab_button P objName = Some d \<Longrightarrow>
   next_id (state_of (loadTab P L objName st)) = next_id st + 18"
  by (simp add: loadTab_unfold)

lemma loadTab_scene_heap:
  "tab_button P objName = Some d \<Longrightarrow>
   scene_heap (state_of (loadTab P L objName st)) =
     (scene_heap st)
       (next_id st + 3 := \<lparr>has_ground = False, models = []\<rparr>,
        next_id st + 8 := \<lparr>has_ground = True, models = []\<rparr>,
        next_id st + 13 := \<lparr>has_ground = True, models = []\<rparr>)"
  by (simp add: loadTab_unfold add.commute)

lemma initViewer_element_heap:
  "cont \<noteq> next_id st + 4 \<Longrightarrow>
   element_heap (snd (initViewer L cont p g sc st)) =
     (element_heap st)
       (cont := (element_heap st cont)
          \<lparr>children := children (element_heap st cont) @ [next_id st + 2, next_id st + 4]\<rparr>,
        next_id st + 4 := \<lparr>className = ''loading'', innerText = ''Loading...'',
                            display = [], children = []\<rparr>)"
  by (auto simp add: initViewer_def Let_def fun_eq_iff split: prod.splits)

lemma loadTab_viewports:
  assumes "tab_button P objName = Some d"
  shows "children (element_heap (state_of (loadTab P L objName st)) (next_id st)) =
           [next_id st + 5, next_id st + 7]"
    and "children (element_heap (state_of (loadTab P L objName st)) (next_id st + 1)) =
           [next_id st + 10, next_id st + 12]"
    and "children (element_heap (state_of (loadTab P L objName st)) (next_id st + 2)) =
           [next_id st + 15, next_id st + 17]"
  using assms by (simp_all add: loadTab_unfold initViewer_element_heap)

text \<open>Every state the page reaches has a well-formed group and the flag clear.\<close>

lemma DOMContentLoaded_wf: "wf_state (state_of (DOMContentLoaded P L))"
proof (cases "loadTab P L ''example_1'' (init_state P L)")
  case (Returned st)
  have "wf_state (state_of (loadTab P L ''example_1'' (init_state P L)))"
    by (rule loadTab_wf)
  with Returned have "wf_state st" by simp
  with animate_keeps_group have "wf_state (animate L st)" by (rule keeps_group_wf)
  with Returned show ?thesis by (simp add: DOMContentLoaded_def)
next
  case (Threw e st)
  have "wf_state (state_of (loadTab P L ''example_1'' (init_state P L)))"
    by (rule loadTab_wf)
  with Threw show ?thesis by (simp add: DOMContentLoaded_def)
qed

lemma DOMContentLoaded_idle: "\<not> isSyncing (state_of (DOMContentLoaded P L))"
proof (cases "loadTab P L ''example_1'' (init_state P L)")
  case (Returned st)
  have "isSyncing (state_of (loadTab P L ''example_1'' (init_state P L))) = False"
    by (simp add: loadTab_flags init_state_def Let_def split: prod.splits)
  with Returned have "\<not> isSyncing st" by simp
  with animate_keeps_group [of st L] have "\<not> isSyncing (animate L st)"
    by (simp add: keeps_group_def)
  with Returned show ?thesis by (simp add: DOMContentLoaded_def)
next
  case (Threw e st)
  have "isSyncing (state_of (loadTab P L ''example_1'' (init_state P L))) = False"
    by (simp add: loadTab_flags init_state_def Let_def split: prod.splits)
  with Threw show ?thesis by (simp add: DOMContentLoaded_def)
qed

lemma reachable_wf: "wf_state (run P L es (state_of (DOMContentLoaded P L)))"
  by (rule run_wf) (rule DOMContentLoaded_wf)

lemma reachable_idle: "\<not> isSyncing (run P L es (state_of (DOMContentLoaded P L)))"
  by (simp add: run_isSyncing DOMContentLoaded_idle)

section \<open>What a pass does to the other viewers\<close>




section \<open>The test page\<close>

lemma test_page_example_1:
  "tab_button test_page ''example_1'' =
     Some \<lparr>condition = Some ''c1.glb'', gen1 = Some ''a1.glb'', gen2 = Some ''b1.glb''\<rparr>"
  by (simp add: test_page_def)

lemma init_state_fields:
  "next_id (init_state P L) = 0"
  "allViewers (init_state P L) = []"
  "isSyncing (init_state P L) = False"
  "isRotating (init_state P L) = True"
  "isPaused (init_state P L) = False"
  "effects (init_state P L) = []"
  "loads (init_state P L) = []"
  by (simp_all add: init_state_def Let_def split: prod.splits)

lemma test_state_fields:
  "allViewers test_state = [handle 3 0, handle 8 1, handle 13 2]"
  "isSyncing test_state = False"
  "isRotating test_state = True"
  "isPaused test_state = False"
  "next_id test_state = 18"
  by (simp_all add: test_state_def loadTab_allViewers [OF test_page_example_1] loadTab_flags
      loadTab_next_id [OF test_page_example_1] init_state_fields numeral_2_eq_2)

lemma test_state_wf: "wf_state test_state"
  by (simp add: test_state_def loadTab_wf)

lemma test_state_loads:
  "loads test_state =
     [\<lparr>load_path = Some ''c1.glb'', load_scene = 3, load_scale = Number 1.2, load_loading = 7\<rparr>,
      \<lparr>load_path = Some ''a1.glb'', load_scene = 8, load_scale = Number 1.2, load_loading = 12\<rparr>,
      \<lparr>load_path = Some ''b1.glb'', load_scene = 13, load_scale = Number 1.2, load_loading = 17\<rparr>]"
  by (simp add: test_state_def loadTab_loads [OF test_page_example_1] init_state_fields
      js_or_def js_get_def scaleMap_def)

lemma run_append: "run P L (es @ es') st = run P L es' (run P L es st)"
  by (induction es arbitrary: st) simp_all
lemma fire_isPaused: "e \<noteq> Click_pause \<Longrightarrow> isPaused (fire P L e st) = isPaused st"
proof (cases "quiet e")
  case True
  from quiet_keeps_group [OF True] show ?thesis by (simp add: keeps_group_def)
next
  case False
  assume "e \<noteq> Click_pause"
  with False show ?thesis by (cases e) (simp_all add: loadTab_flags click_rotate_fields)
qed

lemma run_isPaused: "Click_pause \<notin> set es \<Longrightarrow> isPaused (run P L es st) = isPaused st"
proof (induction es arbitrary: st)
  case Nil
  show ?case by simp
next
  case (Cons e es)
  from Cons.prems have ne: "e \<noteq> Click_pause" and rest: "Click_pause \<notin> set es"
    by auto
  have "isPaused (run P L es (fire P L e st)) = isPaused (fire P L e st)"
    using rest by (rule Cons.IH)
  also have "\<dots> = isPaused st" using ne by (rule fire_isPaused)
  finally show ?case by (simp only: run.simps)
qed

section \<open>The re-entrancy guard\<close>

text \<open>
  Claim C2. If \<^verbatim>\<open>syncCameras\<close> is called while a synchronisation pass is in progress
  (\<^verbatim>\<open>isSyncing\<close> is set), it returns immediately and changes nothing: no camera, no
  target, no controls state, and nothing else of the page. This is the call the
  \<^verbatim>\<open>change\<close> listener makes from inside \<^verbatim>\<open>viewer.controls.update()\<close> during a pass
  (\<open>forEach_flagged_Cons\<close>: in a pass the loop goes on from the state \<^verbatim>\<open>update()\<close> left).
\<close>

theorem syncCameras_reentrant_noop:
  "isSyncing st \<Longrightarrow> syncCameras L sourceControls st = st"
  by simp

theorem syncCameras_reentrant_noop_witness:
  "isSyncing (test_state\<lparr>isSyncing := True\<rparr>) \<and>
   syncCameras test_three 6 (test_state\<lparr>isSyncing := True\<rparr>) = test_state\<lparr>isSyncing := True\<rparr>"
proof
  show flag: "isSyncing (test_state\<lparr>isSyncing := True\<rparr>)" by simp
  show "syncCameras test_three 6 (test_state\<lparr>isSyncing := True\<rparr>) = test_state\<lparr>isSyncing := True\<rparr>"
    by (rule syncCameras_reentrant_noop [OF flag])
qed

text \<open>
  Claim C10. A call of \<^verbatim>\<open>syncCameras\<close> that finds the flag clear returns with the flag
  clear again (the function is total, so it does return; calls into three.js are taken
  to return as well), and the flag is clear after every sequence of events of the page
  that starts with the flag clear: no later synchronisation is suppressed for good.
\<close>

theorem syncCameras_clears_flag:
  "\<not> isSyncing st \<Longrightarrow>
   \<not> isSyncing (syncCameras L sourceControls st) \<and> \<not> isSyncing (run P L es st)"
  using syncCameras_modifies [of sourceControls st L]
  by (simp add: modifies_def run_isSyncing)

theorem syncCameras_clears_flag_witness:
  "\<not> isSyncing test_state \<and>
   \<not> isSyncing (syncCameras test_three 6 test_state) \<and>
   \<not> isSyncing (run test_page test_three [Mouse_down 6, Pointer_move 6 (), Frame, Mouse_up] test_state)"
proof -
  have flag: "\<not> isSyncing test_state" by (simp add: test_state_fields)
  from syncCameras_clears_flag [OF flag] flag show ?thesis by blast
qed

section \<open>The source viewer\<close>

lemma wf_source_camera_apart:
  assumes wf: "wf_state st" and s: "s \<in> set (allViewers st)"
  shows "camera s \<notin> others_cameras (controls s) st"
proof
  assume "camera s \<in> others_cameras (controls s) st"
  then obtain v where v: "v \<in> set (allViewers st)" "controls v \<noteq> controls s"
    and c: "camera v = camera s \<or> object (controls_heap st (controls v)) = camera s"
    by (auto simp add: others_cameras_def others_def)
  from wf v(1) have "object (controls_heap st (controls v)) = camera v"
    by (simp add: wf_state_def list_all_iff)
  with c have eq: "camera v = camera s" by auto
  from wf have "inj_on camera (set (allViewers st))"
    by (simp add: wf_state_def distinct_map)
  with eq v(1) s have "v = s" by (auto dest: inj_onD)
  with v(2) show False by simp
qed

text \<open>
  Claim C3. A call \<^verbatim>\<open>syncCameras(s.controls)\<close> for a viewer \<open>s\<close> of the group leaves the
  source's camera (hence its position) and the source's controls (hence its orbit
  target) as they were. Only controls and cameras of the other viewers of the group are
  written, and nothing else of the page changes. The group is one that \<^verbatim>\<open>loadTab\<close>
  built (\<open>wf_state\<close>: every viewer has its own camera and controls), which holds in
  every state the page reaches (\<open>reachable_wf\<close>).
\<close>

theorem syncCameras_source_untouched:
  assumes "wf_state st" and "s \<in> set (allViewers st)"
  shows "let st' = syncCameras L (controls s) st in
           position (camera_heap st' (camera s)) = position (camera_heap st (camera s)) \<and>
           target (controls_heap st' (controls s)) = target (controls_heap st (controls s)) \<and>
           camera_heap st' (object (controls_heap st (controls s))) =
             camera_heap st (object (controls_heap st (controls s))) \<and>
           controls_heap st' (controls s) = controls_heap st (controls s) \<and>
           (\<forall>c. c \<notin> others_controls (controls s) st \<longrightarrow> controls_heap st' c = controls_heap st c) \<and>
           (\<forall>a. a \<notin> others_cameras (controls s) st \<longrightarrow> camera_heap st' a = camera_heap st a) \<and>
           same_page st st' \<and> isSyncing st' = isSyncing st"
proof -
  note m = syncCameras_modifies [of "controls s" st L]
  have a: "camera s \<notin> others_cameras (controls s) st"
    using assms by (rule wf_source_camera_apart)
  have o: "object (controls_heap st (controls s)) = camera s"
    using assms by (simp add: wf_state_def list_all_iff)
  have c: "controls s \<notin> others_controls (controls s) st"
    by (auto simp add: others_controls_def others_def)
  from m a c o show ?thesis
    by (simp add: modifies_def Let_def)
qed

theorem syncCameras_source_untouched_witness:
  "wf_state test_state \<and> handle 3 0 \<in> set (allViewers test_state) \<and>
   position (camera_heap (syncCameras test_three 6 test_state) 4) =
     position (camera_heap test_state 4) \<and>
   target (controls_heap (syncCameras test_three 6 test_state) 6) =
     target (controls_heap test_state 6)"
proof -
  have s: "handle 3 0 \<in> set (allViewers test_state)" by (simp add: test_state_fields)
  from syncCameras_source_untouched [OF test_state_wf s, of test_three] test_state_wf s
  show ?thesis by (simp add: Let_def handle_def)
qed

section \<open>Spherical offsets after a pass\<close>











section \<open>Rotate and pause\<close>

text \<open>
  Claim C5. Pause on, then pause off, sets every viewer's auto-rotate flag to the stored
  rotate flag. When the rotate toggle is clicked while paused, the flags after pause off
  show the flipped value, not the one from before the pause (with the rotate flag off at
  the start, the flags end up on).
\<close>

theorem pause_on_off_restores_rotate:
  assumes "\<not> isPaused st"
  shows "(let st' = run P L [Click_pause, Click_pause] st in
            \<not> isPaused st' \<and> isRotating st' = isRotating st \<and>
            (\<forall>v \<in> set (allViewers st').
               autoRotate (controls_heap st' (controls v)) = isRotating st)) \<and>
         (let st' = run P L [Click_pause, Click_rotate, Click_pause] st in
            \<not> isPaused st' \<and> isRotating st' = (\<not> isRotating st) \<and>
            (\<forall>v \<in> set (allViewers st').
               autoRotate (controls_heap st' (controls v)) = (\<not> isRotating st)))"
  using assms by (simp add: Let_def click_pause_fields click_rotate_fields)

theorem pause_on_off_restores_rotate_witness:
  "\<not> isPaused (click_rotate test_state) \<and> \<not> isRotating (click_rotate test_state) \<and>
   autoRotate_flags (run test_page test_three [Click_pause, Click_rotate, Click_pause]
                       (click_rotate test_state)) = [True, True, True]"
proof -
  have p: "\<not> isPaused (click_rotate test_state)"
    by (simp add: click_rotate_fields test_state_fields)
  have r: "\<not> isRotating (click_rotate test_state)"
    by (simp add: click_rotate_fields test_state_fields)
  have g: "allViewers (run test_page test_three [Click_pause, Click_rotate, Click_pause]
                       (click_rotate test_state)) = [handle 3 0, handle 8 1, handle 13 2]"
    by (simp add: click_pause_fields click_rotate_fields test_state_fields)
  from pause_on_off_restores_rotate [OF p, of test_page test_three] p r g show ?thesis
    by (simp add: Let_def autoRotate_flags_def)
qed

text \<open>
  Claim C4, as the spec states it, fails: nothing but the pause handler reads
  \<^verbatim>\<open>isPaused\<close>. With rotate off, pause on and then a click on the rotate toggle, the
  page is paused and all three viewers auto-rotate.
\<close>

theorem pause_overridden_by_rotate_click:
  "isPaused (run test_page test_three [Click_rotate, Click_pause, Click_rotate] test_state) \<and>
   autoRotate_flags (run test_page test_three [Click_rotate, Click_pause, Click_rotate] test_state)
     = [True, True, True]"
  by (simp add: autoRotate_flags_def click_pause_fields click_rotate_fields test_state_fields
      handle_def)

text \<open>
  Claim C4, amended. From the click that activates pause, every viewer's auto-rotate
  flag is off, whatever the stored rotate flag is, as long as neither a rotate click nor
  a sample switch nor a pause click happens; mouse and pointer events, frames and load
  callbacks do not turn it on. A rotate click in that interval sets every viewer's flag
  to the flipped rotate flag, and a sample switch gives the new group the stored rotate
  flag, while the page stays paused. Whatever happens while paused, the click that
  deactivates pause sets every viewer's flag to the rotate flag stored at that time.
\<close>

theorem pause_holds_until_rotate_or_tab:
  assumes "\<not> isPaused st" and "list_all quiet es"
  shows "let st1 = run P L (Click_pause # es) st in
           isPaused st1 \<and> isRotating st1 = isRotating st \<and>
           (\<forall>v \<in> set (allViewers st1). \<not> autoRotate (controls_heap st1 (controls v))) \<and>
           (let st2 = fire P L Click_rotate st1 in
              isPaused st2 \<and>
              (\<forall>v \<in> set (allViewers st2).
                 autoRotate (controls_heap st2 (controls v)) = (\<not> isRotating st))) \<and>
           (\<forall>objName. tab_button P objName \<noteq> None \<longrightarrow>
              (let st2 = fire P L (Click_tab objName) st1 in
                 isPaused st2 \<and>
                 (\<forall>v \<in> set (allViewers st2).
                    autoRotate (controls_heap st2 (controls v)) = isRotating st))) \<and>
           (\<forall>es'. Click_pause \<notin> set es' \<longrightarrow>
              (let st2 = run P L (es' @ [Click_pause]) st1 in
                 \<not> isPaused st2 \<and>
                 (\<forall>v \<in> set (allViewers st2).
                    autoRotate (controls_heap st2 (controls v)) = isRotating st2)))"
proof -
  let ?st0 = "click_pause st"
  let ?st1 = "run P L es ?st0"
  have k: "keeps_group ?st0 ?st1" using assms(2) by (rule run_quiet_keeps_group)
  have p0: "isPaused ?st0" "isRotating ?st0 = isRotating st"
    "\<forall>v \<in> set (allViewers ?st0). \<not> autoRotate (controls_heap ?st0 (controls v))"
    using assms(1) by (simp_all add: click_pause_fields)
  from k p0 have p1: "isPaused ?st1" "isRotating ?st1 = isRotating st"
    "\<forall>v \<in> set (allViewers ?st1). \<not> autoRotate (controls_heap ?st1 (controls v))"
    by (simp_all add: keeps_group_def)
  have off: "\<not> isPaused (run P L (es' @ [Click_pause]) ?st1) \<and>
         (\<forall>v \<in> set (allViewers (run P L (es' @ [Click_pause]) ?st1)).
            autoRotate (controls_heap (run P L (es' @ [Click_pause]) ?st1) (controls v)) =
            isRotating (run P L (es' @ [Click_pause]) ?st1))"
    if "Click_pause \<notin> set es'" for es'
  proof -
    have "isPaused (run P L es' ?st1)" using that p1(1) by (simp add: run_isPaused)
    then show ?thesis by (simp add: run_append click_pause_fields)
  qed
  have rot: "isPaused (fire P L Click_rotate ?st1) \<and>
         (\<forall>v \<in> set (allViewers (fire P L Click_rotate ?st1)).
            autoRotate (controls_heap (fire P L Click_rotate ?st1) (controls v)) = (\<not> isRotating st))"
    using p1 by (simp add: click_rotate_fields)
  have tab: "isPaused (fire P L (Click_tab objName) ?st1) \<and>
         (\<forall>v \<in> set (allViewers (fire P L (Click_tab objName) ?st1)).
            autoRotate (controls_heap (fire P L (Click_tab objName) ?st1) (controls v)) = isRotating st)"
    if "tab_button P objName \<noteq> None" for objName
  proof -
    from that obtain d where d: "tab_button P objName = Some d" by auto
    show ?thesis
      using p1 by (simp add: loadTab_flags loadTab_allViewers [OF d] loadTab_controls_heap [OF d]
          handle_def)
  qed
  from p1 rot tab off show ?thesis by (simp add: Let_def)
qed



theorem pause_holds_until_rotate_or_tab_witness:
  "\<not> isPaused test_state \<and>
   list_all quiet [Mouse_down 6, Pointer_move 6 (), Frame, Load_failed 0, Mouse_up :: unit event] \<and>
   isPaused (run test_page test_three
      [Click_pause, Mouse_down 6, Pointer_move 6 (), Frame, Load_failed 0, Mouse_up] test_state) \<and>
   autoRotate_flags (run test_page test_three
      [Click_pause, Mouse_down 6, Pointer_move 6 (), Frame, Load_failed 0, Mouse_up] test_state)
     = [False, False, False]"
proof -
  let ?es = "[Mouse_down 6, Pointer_move 6 (), Frame, Load_failed 0, Mouse_up :: unit event]"
  have p: "\<not> isPaused test_state" by (simp add: test_state_fields)
  have q: "list_all quiet ?es" by simp
  have "keeps_group (click_pause test_state) (run test_page test_three ?es (click_pause test_state))"
    using q by (rule run_quiet_keeps_group)
  then have g: "allViewers (run test_page test_three (Click_pause # ?es) test_state) =
      [handle 3 0, handle 8 1, handle 13 2]"
    by (subst run.simps(2)) (simp add: keeps_group_def click_pause_fields test_state_fields
        del: fire.simps(4-9) run.simps)
  from pause_holds_until_rotate_or_tab [OF p q, of test_page test_three] p q g
  show ?thesis
    by (simp add: Let_def autoRotate_flags_def del: fire.simps run.simps)
qed

section \<open>Sample switches\<close>

text \<open>
  Claim C6. A sample switch (\<^verbatim>\<open>loadTab\<close> for a name that has a tab on the page) returns;
  it first calls \<^verbatim>\<open>dispose\<close> on the renderer of every viewer of the old group, in
  order, then creates three renderers, and the group becomes exactly the three handles
  built for them. No handle of the old group is in the new one. (For a name without a
  tab, \<^verbatim>\<open>tabButton.dataset\<close> throws once the old group has been disposed of and emptied:
  \<open>loadTab_Threw\<close>, \<open>clearViewers_eq\<close>.)
\<close>

theorem loadTab_replaces_group:
  assumes "tab_button P objName = Some d"
  shows "let st' = state_of (loadTab P L objName st); n = next_id st in
           loadTab P L objName st = Returned st' \<and>
           allViewers st' =
             [handle (n + 3) n, handle (n + 8) (n + 1), handle (n + 13) (n + 2)] \<and>
           effects st' =
             effects st @ map (\<lambda>v. Dispose (renderer v)) (allViewers st) @
             map (\<lambda>v. Create_renderer (renderer v)) (allViewers st') \<and>
           (wf_state st \<longrightarrow> set (allViewers st') \<inter> set (allViewers st) = {})"
proof -
  obtain st' where r: "loadTab P L objName st = Returned st'"
    using loadTab_Returned [OF assms] by blast
  have new: "allViewers (state_of (loadTab P L objName st)) =
      [handle (next_id st + 3) (next_id st), handle (next_id st + 8) (next_id st + 1),
       handle (next_id st + 13) (next_id st + 2)]"
    using assms by (rule loadTab_allViewers)
  have apart: "set (allViewers (state_of (loadTab P L objName st))) \<inter> set (allViewers st) = {}"
    if wf: "wf_state st"
  proof -
    have "renderer v < next_id st" if "v \<in> set (allViewers st)" for v
      using wf that by (simp add: wf_state_def list_all_iff)
    moreover have "next_id st \<le> renderer v"
      if "v \<in> set (allViewers (state_of (loadTab P L objName st)))" for v
      using that unfolding new by (auto simp add: handle_def)
    ultimately show ?thesis by fastforce
  qed
  show ?thesis
    using r apart new loadTab_effects [OF assms, of L st]
    by (simp add: Let_def handle_def)
qed

theorem loadTab_replaces_group_witness:
  "tab_button test_page ''constructor'' =
     Some \<lparr>condition = Some ''c2.glb'', gen1 = Some ''a2.glb'', gen2 = Some ''b2.glb''\<rparr> \<and>
   wf_state test_state \<and>
   allViewers test_state = [handle 3 0, handle 8 1, handle 13 2] \<and>
   allViewers (state_of (loadTab test_page test_three ''constructor'' test_state)) =
     [handle 21 18, handle 26 19, handle 31 20] \<and>
   effects (state_of (loadTab test_page test_three ''constructor'' test_state)) =
     effects test_state @ [Dispose 5, Dispose 10, Dispose 15] @
     [Create_renderer 23, Create_renderer 28, Create_renderer 33]"
proof -
  have t: "tab_button test_page ''constructor'' =
     Some \<lparr>condition = Some ''c2.glb'', gen1 = Some ''a2.glb'', gen2 = Some ''b2.glb''\<rparr>"
    by (simp add: test_page_def)
  from loadTab_replaces_group [OF t, of test_three test_state] t test_state_wf
  show ?thesis by (simp add: Let_def test_state_fields handle_def)
qed

text \<open>
  Claim C7. After a sample switch the group has three viewers, each with auto-rotate
  equal to the stored rotate flag. The pause flag is left as it was and is not applied
  to the new group: in a paused session with rotate on, the new viewers auto-rotate.
\<close>

theorem loadTab_autoRotate_follows_rotate:
  assumes "tab_button P objName = Some d"
  shows "let st' = state_of (loadTab P L objName st) in
           length (allViewers st') = 3 \<and>
           (\<forall>v \<in> set (allViewers st').
              autoRotate (controls_heap st' (controls v)) = isRotating st) \<and>
           isRotating st' = isRotating st \<and> isPaused st' = isPaused st"
  using assms
  by (simp add: Let_def loadTab_allViewers loadTab_controls_heap loadTab_flags handle_def)

theorem loadTab_autoRotate_follows_rotate_witness:
  "tab_button test_page ''example_1'' =
     Some \<lparr>condition = Some ''c1.glb'', gen1 = Some ''a1.glb'', gen2 = Some ''b1.glb''\<rparr> \<and>
   isPaused (click_pause test_state) \<and> isRotating (click_pause test_state) \<and>
   isPaused (state_of (loadTab test_page test_three ''example_1'' (click_pause test_state))) \<and>
   autoRotate_flags (state_of (loadTab test_page test_three ''example_1'' (click_pause test_state)))
     = [True, True, True]"
proof -
  have p: "isPaused (click_pause test_state)" "isRotating (click_pause test_state)"
    by (simp_all add: click_pause_fields test_state_fields)
  have g: "allViewers (state_of (loadTab test_page test_three ''example_1'' (click_pause test_state)))
             = [handle 21 18, handle 26 19, handle 31 20]"
    by (simp add: loadTab_allViewers [OF test_page_example_1] click_pause_fields test_state_fields)
  from loadTab_autoRotate_follows_rotate [OF test_page_example_1, of test_three "click_pause test_state"]
    p g test_page_example_1
  show ?thesis by (simp add: Let_def autoRotate_flags_def)
qed

section \<open>Asset-load failure\<close>

text \<open>
  Claim C9. When the load of one viewer's asset fails, the text of that viewer's loading
  indicator becomes the error message and no other element changes; the group, the
  three flags, every camera, controls object and scene, and the list of load requests
  (no new request: no retry) stay as they are. The one other effect is a line on the
  console. The indicator is a child of the container of the viewer that asked for the
  asset (\<open>loadTab_viewports\<close>).
\<close>

theorem load_failure_stays_local:
  assumes "k < length (loads st)"
  shows "let req = loads st ! k; st' = fire P L (Load_failed k) st in
           element_heap st' (load_loading req) =
             (element_heap st (load_loading req))\<lparr>innerText := ''Error loading model''\<rparr> \<and>
           (\<forall>e. e \<noteq> load_loading req \<longrightarrow> element_heap st' e = element_heap st e) \<and>
           allViewers st' = allViewers st \<and> isSyncing st' = isSyncing st \<and>
           isRotating st' = isRotating st \<and> isPaused st' = isPaused st \<and>
           camera_heap st' = camera_heap st \<and> controls_heap st' = controls_heap st \<and>
           scene_heap st' = scene_heap st \<and> mouseup_listeners st' = mouseup_listeners st \<and>
           loads st' = loads st \<and>
           effects st' = effects st @ [Console_error ''Error loading GLB:'']"
  using assms by (simp add: Let_def load_failure_def)

theorem load_failure_stays_local_witness:
  "1 < length (loads test_state) \<and>
   load_loading (loads test_state ! 1) = 12 \<and>
   children (element_heap test_state (container (handle 8 1))) = [10, 12] \<and>
   innerText (element_heap (fire test_page test_three (Load_failed 1) test_state) 12) =
     ''Error loading model'' \<and>
   element_heap (fire test_page test_three (Load_failed 1) test_state) 7 = element_heap test_state 7 \<and>
   element_heap (fire test_page test_three (Load_failed 1) test_state) 17 = element_heap test_state 17 \<and>
   allViewers (fire test_page test_three (Load_failed 1) test_state) = allViewers test_state \<and>
   loads (fire test_page test_three (Load_failed 1) test_state) = loads test_state"
proof -
  have k: "1 < length (loads test_state)" by (simp add: test_state_loads)
  have c: "children (element_heap test_state (container (handle 8 1))) = [10, 12]"
    using loadTab_viewports(2) [OF test_page_example_1, of test_three "init_state test_page test_three"]
    by (simp add: test_state_def init_state_fields handle_def)
  have l: "load_loading (loads test_state ! 1) = 12" by (simp add: test_state_loads)
  from load_failure_stays_local [OF k, of test_page test_three] k c l
  show ?thesis by (simp add: Let_def del: fire.simps)
qed

section \<open>Scale and labels of a sample\<close>

lemma scale_configured:
  "map_of scaleMap objName = Some v \<Longrightarrow> js_or (js_get scaleMap objName) (Number 1) = v"
  by (auto simp add: scaleMap_def js_get_def js_or_def split: if_splits)

lemma scale_default:
  "map_of scaleMap objName = None \<Longrightarrow> objName \<notin> set object_prototype_keys \<Longrightarrow>
   js_or (js_get scaleMap objName) (Number 1) = Number 1"
  by (simp add: js_get_def js_or_def)

lemma labels_default:
  "map_of sampleLabels objName = None \<Longrightarrow> objName \<notin> set object_prototype_keys \<Longrightarrow>
   js_or (js_get sampleLabels objName) (Labels ''Sample 1'' ''Sample 2'') = Labels ''Sample 1'' ''Sample 2''"
  by (simp add: js_get_def js_or_def)

lemma scale_inherited:
  "map_of scaleMap objName = None \<Longrightarrow> objName \<in> set object_prototype_keys \<Longrightarrow>
   js_or (js_get scaleMap objName) (Number 1) = Inherited objName"
  by (simp add: js_get_def js_or_def)

lemma load_success_scale:
  "k < length (loads st) \<Longrightarrow>
   models (scene_heap (fire P L (Load_done k g) st) (load_scene (loads st ! k))) =
     models (scene_heap st (load_scene (loads st ! k))) @
     [g\<lparr>model_scale := load_scale (loads st ! k), nodes := map traverse_child (nodes g)\<rparr>]"
  by (simp add: load_success_def Let_def)

lemma test_page_constructor:
  "tab_button test_page ''constructor'' =
     Some \<lparr>condition = Some ''c2.glb'', gen1 = Some ''a2.glb'', gen2 = Some ''b2.glb''\<rparr>"
  by (simp add: test_page_def)

lemma loadTab_scale_of_plain_name:
  assumes "tab_button P objName = Some d" and "objName \<notin> set object_prototype_keys"
  shows "map load_scale (drop (length (loads st)) (loads (state_of (loadTab P L objName st)))) =
           replicate 3 (case map_of scaleMap objName of Some v \<Rightarrow> v | None \<Rightarrow> Number 1)"
    and "map_of sampleLabels objName = None \<Longrightarrow>
         label_texts (state_of (loadTab P L objName st)) = (''Sample 1'', ''Sample 2'')"
proof -
  show "map load_scale (drop (length (loads st)) (loads (state_of (loadTab P L objName st)))) =
           replicate 3 (case map_of scaleMap objName of Some v \<Rightarrow> v | None \<Rightarrow> Number 1)"
    using assms(2)
    by (cases "map_of scaleMap objName")
       (simp_all add: loadTab_loads [OF assms(1)] scale_default scale_configured numeral_3_eq_3)
  show "label_texts (state_of (loadTab P L objName st)) = (''Sample 1'', ''Sample 2'')"
    if "map_of sampleLabels objName = None"
    using that assms(2) by (simp add: loadTab_label_texts [OF assms(1)] labels_default)
qed

text \<open>
  Claim C8 does not hold of the code for every sample id. The script reads
  \<^verbatim>\<open>scaleMap[objName] || 1.0\<close> and \<^verbatim>\<open>sampleLabels[objName] || [...]\<close> on object literals,
  so a name that \<^verbatim>\<open>Object.prototype\<close> defines finds the inherited property, which is
  truthy. For a tab named \<^verbatim>\<open>constructor\<close>, which has no entry in the scale map, the
  scale handed to the three viewers and set on a loaded model is that inherited
  function, not 1.0, and both labels read \<^verbatim>\<open>undefined\<close>. For every other name the claim
  holds (\<open>loadTab_scale_of_plain_name\<close>, \<open>load_success_scale\<close>).
\<close>

theorem loadTab_constructor_scale:
  "map_of scaleMap ''constructor'' = None \<and>
   map load_scale (drop 3 (loads (state_of (loadTab test_page test_three ''constructor'' test_state))))
     = [Inherited ''constructor'', Inherited ''constructor'', Inherited ''constructor''] \<and>
   map model_scale
     (models (scene_heap
        (run test_page test_three
           [Click_tab ''constructor'', Load_done 3 \<lparr>model_scale = Number 1, nodes = []\<rparr>] test_state)
        21))
     = [Inherited ''constructor''] \<and>
   label_texts (state_of (loadTab test_page test_three ''constructor'' test_state))
     = (''undefined'', ''undefined'')"
proof -
  let ?st = "state_of (loadTab test_page test_three ''constructor'' test_state)"
  have s: "js_or (js_get scaleMap ''constructor'') (Number 1) = Inherited ''constructor''"
    by (simp add: js_get_def js_or_def scaleMap_def object_prototype_keys_def)
  have l: "js_or (js_get sampleLabels ''constructor'') (Labels ''Sample 1'' ''Sample 2'')
             = Inherited ''constructor''"
    by (simp add: js_get_def js_or_def sampleLabels_def object_prototype_keys_def)
  have lo: "loads ?st = loads test_state @
     [\<lparr>load_path = Some ''c2.glb'', load_scene = 21, load_scale = Inherited ''constructor'', load_loading = 25\<rparr>,
      \<lparr>load_path = Some ''a2.glb'', load_scene = 26, load_scale = Inherited ''constructor'', load_loading = 30\<rparr>,
      \<lparr>load_path = Some ''b2.glb'', load_scene = 31, load_scale = Inherited ''constructor'', load_loading = 35\<rparr>]"
    by (simp add: loadTab_loads [OF test_page_constructor] s test_state_fields)
  have sc: "models (scene_heap ?st 21) = []"
    by (simp add: loadTab_scene_heap [OF test_page_constructor] test_state_fields)
  have m: "map_of scaleMap ''constructor'' = None" by (simp add: scaleMap_def)
  have t: "label_texts ?st = (''undefined'', ''undefined'')"
    by (simp add: loadTab_label_texts [OF test_page_constructor] l)
  have d: "models (scene_heap (fire test_page test_three (Load_done 3 \<lparr>model_scale = Number 1, nodes = []\<rparr>) ?st) 21)
             = [\<lparr>model_scale = Inherited ''constructor'', nodes = []\<rparr>]"
    using load_success_scale [of 3 ?st test_page test_three "\<lparr>model_scale = Number 1, nodes = []\<rparr>"]
    by (simp add: lo test_state_loads sc del: fire.simps)
  show ?thesis
    using m t d by (simp add: lo test_state_loads del: fire.simps(2-9))
qed

end
